theory Spec2Isabelle
  imports Complex_Main "HOL-Library.Multiset"
begin

section \<open>Replay buffers of \<^verbatim>\<open>rls/memories/replay_buffer.py\<close>\<close>

text \<open>
  The exceptions the modelled code can raise. A failed \<^verbatim>\<open>assert\<close> is
  \<open>AssertionError\<close>; indexing a numpy array or a list out of range is
  \<open>IndexError\<close>; \<^verbatim>\<open>zip(*rows)\<close> over a row that is \<^verbatim>\<open>None\<close> is
  \<open>TypeError\<close>; \<^verbatim>\<open>min()\<close> of an empty array is \<open>ValueError\<close>; reading an
  attribute that was never assigned is \<open>AttributeError\<close>.
\<close>

datatype py_error =
  AssertionError | IndexError | TypeError | ValueError | ZeroDivisionError | AttributeError

subsection \<open>Class \<^verbatim>\<open>ReplayBuffer\<close>\<close>

text \<open>
  The fields of the abstract base class. The Python attribute \<^verbatim>\<open>_size\<close> is the
  field \<open>rb_size\<close>. The constructor asserts that both arguments are non-negative
  integers, so the fields are naturals.
\<close>

record ReplayBuffer =
  batch_size :: nat
  capacity :: nat
  rb_size :: nat

definition ReplayBuffer_init :: "int \<Rightarrow> int \<Rightarrow> py_error + ReplayBuffer" where
  "ReplayBuffer_init b c =
     (if \<not> b \<ge> 0 then Inl AssertionError
      else if \<not> c \<ge> 0 then Inl AssertionError
      else Inr \<lparr>batch_size = nat b, capacity = nat c, rb_size = 0\<rparr>)"

text \<open>\<^verbatim>\<open>ReplayBuffer.reset\<close>, inherited unchanged by \<^verbatim>\<open>ExperienceReplay\<close>.\<close>

definition reset :: "'z ReplayBuffer_scheme \<Rightarrow> 'z ReplayBuffer_scheme" where
  "reset s = s\<lparr>rb_size := 0\<rparr>"

definition is_empty :: "'z ReplayBuffer_scheme \<Rightarrow> bool" where
  "is_empty s \<longleftrightarrow> rb_size s = 0"

definition is_lg_batch_size :: "'z ReplayBuffer_scheme \<Rightarrow> bool" where
  "is_lg_batch_size s \<longleftrightarrow> rb_size s > batch_size s"

subsection \<open>Class \<^verbatim>\<open>ExperienceReplay\<close>\<close>

text \<open>
  \<^verbatim>\<open>_data_pointer\<close> is the write cursor and \<^verbatim>\<open>_buffer\<close> the object array made by
  \<^verbatim>\<open>np.empty(capacity, dtype=object)\<close>, whose slots start as \<^verbatim>\<open>None\<close>. A stored
  item is one row of fields.
\<close>

record 'a ExperienceReplay = ReplayBuffer +
  data_pointer :: nat
  buffer :: "'a option list"

definition ExperienceReplay_init :: "int \<Rightarrow> int \<Rightarrow> py_error + 'a ExperienceReplay" where
  "ExperienceReplay_init b c =
     (case ReplayBuffer_init b c of
        Inl e \<Rightarrow> Inl e
      | Inr rb \<Rightarrow> Inr \<lparr>batch_size = batch_size rb, capacity = capacity rb, rb_size = rb_size rb,
                      data_pointer = 0, buffer = replicate (nat c) None\<rparr>)"

definition update_rb_after_add :: "'a ExperienceReplay \<Rightarrow> 'a ExperienceReplay" where
  "update_rb_after_add s =
     (let s1 = s\<lparr>data_pointer := data_pointer s + 1\<rparr>;
          s2 = (if data_pointer s1 \<ge> capacity s1 then s1\<lparr>data_pointer := 0\<rparr> else s1)
      in if rb_size s2 < capacity s2 then s2\<lparr>rb_size := rb_size s2 + 1\<rparr> else s2)"

text \<open>
  \<^verbatim>\<open>_store_op\<close>: the assignment \<^verbatim>\<open>self._buffer[self._data_pointer] = data\<close> raises
  IndexError when the cursor is not a slot of the array (a buffer of capacity 0).
\<close>

definition store_op :: "'a \<Rightarrow> 'a ExperienceReplay \<Rightarrow> py_error + 'a ExperienceReplay" where
  "store_op x s =
     (if data_pointer s < length (buffer s)
      then Inr (update_rb_after_add (s\<lparr>buffer := (buffer s)[data_pointer s := Some x]\<rparr>))
      else Inl IndexError)"

text \<open>The comprehension of \<^verbatim>\<open>add\<close>: the rows are stored one after the other.\<close>

fun store_ops :: "'a list \<Rightarrow> 'a ExperienceReplay \<Rightarrow> py_error + 'a ExperienceReplay" where
  "store_ops [] s = Inr s"
| "store_ops (x # xs) s = (case store_op x s of Inl e \<Rightarrow> Inl e | Inr s' \<Rightarrow> store_ops xs s')"

text \<open>
  Python's \<^verbatim>\<open>zip(*rows)\<close>: column \<open>j\<close> collects field \<open>j\<close> of every row, in the order
  of the rows, and there are as many columns as the shortest row has fields (none
  when there is no row).
\<close>

definition zip_star :: "'f list list \<Rightarrow> 'f list list" where
  "zip_star rows =
     (if rows = [] then []
      else map (\<lambda>j. map (\<lambda>r. r ! j) rows) [0 ..< Min (set (map length rows))])"

text \<open>\<^verbatim>\<open>add(*args)\<close> gets one column per field and stores the rows \<^verbatim>\<open>zip(*args)\<close>.\<close>

definition add :: "'f list list \<Rightarrow> 'f list ExperienceReplay \<Rightarrow> py_error + 'f list ExperienceReplay" where
  "add args s = store_ops (zip_star args) s"

text \<open>
  The slice \<^verbatim>\<open>self._buffer[:self._size]\<close> that \<^verbatim>\<open>get_all\<close> and \<^verbatim>\<open>sample\<close> read,
  and the unpacking of its slots by \<^verbatim>\<open>zip(*...)\<close>, which fails on a \<^verbatim>\<open>None\<close> slot.
\<close>

definition live_slots :: "'a ExperienceReplay \<Rightarrow> 'a option list" where
  "live_slots s = take (rb_size s) (buffer s)"

fun unpack_rows :: "'a option list \<Rightarrow> py_error + 'a list" where
  "unpack_rows [] = Inr []"
| "unpack_rows (None # _) = Inl TypeError"
| "unpack_rows (Some x # xs) = (case unpack_rows xs of Inl e \<Rightarrow> Inl e | Inr ys \<Rightarrow> Inr (x # ys))"

definition get_all :: "'f list ExperienceReplay \<Rightarrow> py_error + 'f list list" where
  "get_all s = (case unpack_rows (live_slots s) of Inl e \<Rightarrow> Inl e | Inr rows \<Rightarrow> Inr (zip_star rows))"

text \<open>
  \<^verbatim>\<open>sample\<close>: \<^verbatim>\<open>np.random.choice(..., size=n_sample, replace=False)\<close> returns
  \<open>n_sample\<close> distinct positions of the live slice; the positions drawn are the
  argument \<open>picks\<close>, and \<open>sample_draw\<close> says which lists of positions can be drawn.
\<close>

definition n_sample :: "'z ReplayBuffer_scheme \<Rightarrow> nat" where
  "n_sample s = (if is_lg_batch_size s then batch_size s else rb_size s)"

definition sample_draw :: "'a ExperienceReplay \<Rightarrow> nat list \<Rightarrow> bool" where
  "sample_draw s picks \<longleftrightarrow>
     length picks = n_sample s \<and> distinct picks \<and> list_all (\<lambda>i. i < length (live_slots s)) picks"

definition sample :: "'f list ExperienceReplay \<Rightarrow> nat list \<Rightarrow> py_error + 'f list list" where
  "sample s picks =
     (case unpack_rows (map (\<lambda>i. live_slots s ! i) picks) of
        Inl e \<Rightarrow> Inl e | Inr rows \<Rightarrow> Inr (zip_star rows))"


text \<open>
  The states in which a store can be performed: a positive capacity, one slot per
  unit of capacity, the cursor on a slot and the size within the capacity.
\<close>

definition er_inv :: "'a ExperienceReplay \<Rightarrow> bool" where
  "er_inv s \<longleftrightarrow> 0 < capacity s \<and> length (buffer s) = capacity s
     \<and> data_pointer s < capacity s \<and> rb_size s \<le> capacity s"

subsection \<open>Class \<^verbatim>\<open>Sum_Tree\<close> (module \<^verbatim>\<open>rls.memories.sum_tree\<close>)\<close>

text \<open>
  Modelled from the spec: the module \<^verbatim>\<open>rls/memories/sum_tree.py\<close> is not among the
  sources, so the priority index follows the specification's sections 3, 4.1, 5 and 9:
  an array of \<open>2C - 1\<close> nodes with \<open>parent = (i - 1) / 2\<close> and
  \<open>children = 2i + 1, 2i + 2\<close>, whose last \<open>C\<close> nodes are the leaves and mirror the
  payload slots one to one, with the store's cursor; a slot never written has
  priority 0. The indices exchanged with the buffer are slot indices.
\<close>

record 'a Sum_Tree =
  st_capacity :: nat
  st_nodes :: "real list"
  st_data :: "'a option list"
  st_pointer :: nat

text \<open>
  Modelled from the spec: the constructor and \<^verbatim>\<open>reset\<close> of the missing class give a
  tree of \<open>2C - 1\<close> nodes of priority 0, empty payload slots and the cursor at 0.
\<close>

definition Sum_Tree_init :: "nat \<Rightarrow> 'a Sum_Tree" where
  "Sum_Tree_init c =
     \<lparr>st_capacity = c, st_nodes = replicate (2 * c - 1) 0, st_data = replicate c None,
      st_pointer = 0\<rparr>"

definition Sum_Tree_reset :: "'a Sum_Tree \<Rightarrow> 'a Sum_Tree" where
  "Sum_Tree_reset t = Sum_Tree_init (st_capacity t)"













subsection \<open>Class \<^verbatim>\<open>PrioritizedExperienceReplay\<close>\<close>

text \<open>
  Python floats are modelled as real numbers: the arithmetic is exact, without
  rounding, overflow or NaN. \<^verbatim>\<open>np.power(x, y)\<close> is \<open>x powr y\<close>, which agrees with it
  for \<open>x > 0\<close>. \<^verbatim>\<open>IS_w\<close> starts as the scalar 1 and is an array after a sample.
  \<^verbatim>\<open>last_indexs\<close> is not assigned before the first sample or get_all.
\<close>

record 'a PrioritizedExperienceReplay = ReplayBuffer +
  tree :: "'a Sum_Tree"
  alpha :: real
  beta :: real
  init_beta :: real
  beta_interval :: real
  epsilon :: real
  IS_w :: "real list"
  global_v :: bool
  min_p :: real
  max_p :: real
  last_indexs :: "nat list option"

definition maxsize :: real where
  "maxsize = 9223372036854775807"

definition PER_reset :: "'a PrioritizedExperienceReplay \<Rightarrow> 'a PrioritizedExperienceReplay" where
  "PER_reset s =
     s\<lparr>tree := Sum_Tree_reset (tree s), rb_size := 0, beta := init_beta s,
       min_p := maxsize, max_p := epsilon s powr alpha s\<rparr>"

text \<open>
  \<^verbatim>\<open>__init__\<close>: the assertion on \<open>epsilon\<close>, the two assertions of the base class,
  the division by \<^verbatim>\<open>max_train_step\<close>, then \<^verbatim>\<open>reset()\<close>, which is what first assigns
  \<^verbatim>\<open>min_p\<close> and \<^verbatim>\<open>max_p\<close>. Neither \<open>alpha\<close> nor \<open>beta\<close> is checked.
\<close>

definition PER_init ::
  "int \<Rightarrow> int \<Rightarrow> int \<Rightarrow> real \<Rightarrow> real \<Rightarrow> real \<Rightarrow> bool \<Rightarrow> py_error + 'a PrioritizedExperienceReplay" where
  "PER_init b c max_train_step al be eps gv =
     (if \<not> eps > 0 then Inl AssertionError
      else case ReplayBuffer_init b c of
        Inl e \<Rightarrow> Inl e
      | Inr rb \<Rightarrow>
          if max_train_step = 0 then Inl ZeroDivisionError
          else Inr (PER_reset
            \<lparr>batch_size = batch_size rb, capacity = capacity rb, rb_size = rb_size rb,
             tree = Sum_Tree_init (capacity rb), alpha = al, beta = be, init_beta = be,
             beta_interval = (1 - be) / real_of_int max_train_step, epsilon = eps,
             IS_w = [1], global_v = gv, min_p = maxsize, max_p = eps powr al,
             last_indexs = None\<rparr>))"














subsection \<open>Class \<^verbatim>\<open>NStepWrapper\<close>\<close>

text \<open>
  A row \<^verbatim>\<open>[s, visual_s, a, r, s_, visual_s_, done]\<close>, fields 0 to 6 in this order.
  The comparison \<^verbatim>\<open>(x != y).any()\<close> of two arrays of one shape holds when they are
  not equal. The reward is a real number.
\<close>

record ('s, 'v, 'a) transition =
  state :: 's
  visual_state :: 'v
  action :: 'a
  reward :: real
  next_state :: 's
  next_visual_state :: 'v
  done_flag :: bool

text \<open>
  The wrapper has no \<^verbatim>\<open>_store_op\<close> of its own: \<^verbatim>\<open>__getattr__\<close> hands the call to
  the wrapped buffer. The wrapped buffer is represented by \<open>ns_committed\<close>, the rows
  given to its \<^verbatim>\<open>_store_op\<close> so far, in the order of the calls.
\<close>

record ('s, 'v, 'a) NStepWrapper =
  ns_n :: int
  ns_gamma :: real
  ns_agents_num :: nat
  ns_queue :: "('s, 'v, 'a) transition list list"
  ns_committed :: "('s, 'v, 'a) transition list"

definition NStepWrapper_init :: "real \<Rightarrow> int \<Rightarrow> nat \<Rightarrow> ('s, 'v, 'a) NStepWrapper" where
  "NStepWrapper_init g k agents =
     \<lparr>ns_n = k, ns_gamma = g, ns_agents_num = agents, ns_queue = replicate agents [],
      ns_committed = []\<rparr>"

text \<open>
  The loop \<^verbatim>\<open>for j in range(_len)\<close>: entry \<open>j\<close> of the queue gets the new reward
  discounted by \<open>gamma ** (_len - j)\<close> and the new row's fields 4, 5 and 6.
\<close>

definition roll_forward ::
  "real \<Rightarrow> ('s, 'v, 'a) transition \<Rightarrow> ('s, 'v, 'a) transition list \<Rightarrow> ('s, 'v, 'a) transition list" where
  "roll_forward g data q =
     map (\<lambda>(j, e). e\<lparr>reward := reward e + reward data * g ^ (length q - j),
                      next_state := next_state data,
                      next_visual_state := next_visual_state data,
                      done_flag := done_flag data\<rparr>)
         (enumerate 0 q)"

text \<open>The loop \<^verbatim>\<open>while q: self._store_op(q.pop())\<close>; \<^verbatim>\<open>q.pop()\<close> removes the last entry.\<close>

function flush ::
  "'t list \<Rightarrow> 't list \<Rightarrow> 't list \<times> 't list" where
  "flush q committed = (if q = [] then (q, committed) else flush (butlast q) (committed @ [last q]))"
  by pat_completeness auto
termination
  by (relation "measure (\<lambda>(q, committed). length q)") auto

declare flush.simps [simp del]

text \<open>\<^verbatim>\<open>_per_store\<close> on the queue of one agent; \<^verbatim>\<open>q.pop(0)\<close> removes the first entry.\<close>

definition per_store_queue ::
  "int \<Rightarrow> real \<Rightarrow> ('s, 'v, 'a) transition \<Rightarrow> ('s, 'v, 'a) transition list \<times> ('s, 'v, 'a) transition list
     \<Rightarrow> ('s, 'v, 'a) transition list \<times> ('s, 'v, 'a) transition list" where
  "per_store_queue k g data qc =
     (case qc of (q, committed) \<Rightarrow>
        if length q = 0 then (q @ [data], committed)
        else if next_state (last q) \<noteq> state data \<or> next_visual_state (last q) \<noteq> visual_state data
        then (if int (length q) = k then (tl q @ [data], committed @ [hd q])
              else ([data], committed))
        else
          let (q1, c1) = (if int (length q) = k then (tl q, committed @ [hd q]) else (q, committed));
              q2 = roll_forward g data q1 @ [data]
          in if done_flag data then flush q2 c1 else (q2, c1))"

definition NStep_per_store ::
  "nat \<Rightarrow> ('s, 'v, 'a) transition \<Rightarrow> ('s, 'v, 'a) NStepWrapper \<Rightarrow> py_error + ('s, 'v, 'a) NStepWrapper" where
  "NStep_per_store i data w =
     (if i < length (ns_queue w)
      then (case per_store_queue (ns_n w) (ns_gamma w) data (ns_queue w ! i, ns_committed w) of
              (q, committed) \<Rightarrow> Inr (w\<lparr>ns_queue := (ns_queue w)[i := q], ns_committed := committed\<rparr>))
      else Inl IndexError)"

text \<open>
  \<^verbatim>\<open>add\<close>: row \<open>i\<close> of \<^verbatim>\<open>zip(*args)\<close> belongs to agent \<open>i\<close>; the argument is the list
  of these rows.
\<close>

fun NStep_add_from ::
  "nat \<Rightarrow> ('s, 'v, 'a) transition list \<Rightarrow> ('s, 'v, 'a) NStepWrapper \<Rightarrow> py_error + ('s, 'v, 'a) NStepWrapper" where
  "NStep_add_from i [] w = Inr w"
| "NStep_add_from i (data # rows) w =
     (case NStep_per_store i data w of Inl e \<Rightarrow> Inl e | Inr w' \<Rightarrow> NStep_add_from (i + 1) rows w')"

definition NStep_add ::
  "('s, 'v, 'a) transition list \<Rightarrow> ('s, 'v, 'a) NStepWrapper \<Rightarrow> py_error + ('s, 'v, 'a) NStepWrapper" where
  "NStep_add rows w = NStep_add_from 0 rows w"

text \<open>Successive calls of \<^verbatim>\<open>add\<close>, one list of rows per call.\<close>

fun NStep_adds ::
  "('s, 'v, 'a) transition list list \<Rightarrow> ('s, 'v, 'a) NStepWrapper \<Rightarrow> py_error + ('s, 'v, 'a) NStepWrapper" where
  "NStep_adds [] w = Inr w"
| "NStep_adds (rows # rest) w =
     (case NStep_add rows w of Inl e \<Rightarrow> Inl e | Inr w' \<Rightarrow> NStep_adds rest w')"

text \<open>A row with reward 1 and no visual state or action, from state \<open>x\<close> to state \<open>y\<close>.\<close>

definition step_row :: "'s \<Rightarrow> 's \<Rightarrow> bool \<Rightarrow> ('s, unit, unit) transition" where
  "step_row x y d =
     \<lparr>state = x, visual_state = (), action = (), reward = 1, next_state = y,
      next_visual_state = (), done_flag = d\<rparr>"

subsection \<open>Class \<^verbatim>\<open>EpisodeExperienceReplay\<close>\<close>

text \<open>
  An experience is a row of fields, each field a vector of numbers; a trajectory is
  a list of experiences, stored whole in one slot. The step counts are naturals.
\<close>

type_synonym experience = "real list list"

record EpisodeExperienceReplay = ReplayBuffer +
  ep_agents_num :: nat
  burn_in_time_step :: nat
  train_time_step :: nat
  timestep :: nat
  ep_queue :: "experience list list"
  ep_data_pointer :: nat
  ep_buffer :: "experience list option list"










text \<open>
  \<^verbatim>\<open>__init__\<close>: the window length \<^verbatim>\<open>timestep\<close> is the sum of the two step counts;
  no method assigns it again.
\<close>

definition Episode_init :: "int \<Rightarrow> int \<Rightarrow> nat \<Rightarrow> nat \<Rightarrow> nat \<Rightarrow> py_error + EpisodeExperienceReplay" where
  "Episode_init b c agents burn_in train =
     (case ReplayBuffer_init b c of
        Inl e \<Rightarrow> Inl e
      | Inr rb \<Rightarrow>
          Inr \<lparr>batch_size = batch_size rb, capacity = capacity rb, rb_size = rb_size rb,
               ep_agents_num = agents, burn_in_time_step = burn_in, train_time_step = train,
               timestep = burn_in + train, ep_queue = replicate agents [],
               ep_data_pointer = 0, ep_buffer = replicate (nat c) None\<rparr>)"





text \<open>Sequencing of calls that may raise: the first exception ends the sequence.\<close>

definition and_then :: "py_error + 'x \<Rightarrow> ('x \<Rightarrow> py_error + 'y) \<Rightarrow> py_error + 'y" where
  "and_then r f = (case r of Inl e \<Rightarrow> Inl e | Inr x \<Rightarrow> f x)"


section \<open>The circular store of \<^verbatim>\<open>ExperienceReplay\<close>\<close>

lemma rotate_store:
  assumes "p < length b"
  shows "rotate (if Suc p \<ge> length b then 0 else Suc p) (b[p := v]) = tl (rotate p b) @ [v]"
proof -
  have d: "drop p b \<noteq> []" using assms by simp
  have r: "rotate p b = drop p b @ take p b" using assms by (simp add: rotate_drop_take)
  have t: "tl (rotate p b) = drop (Suc p) b @ take p b"
    using d r by (simp add: drop_Suc tl_drop)
  show ?thesis
  proof (cases "Suc p \<ge> length b")
    case True
    then have "Suc p = length b" using assms by simp
    then have "b[p := v] = take p b @ [v]" using assms
      by (simp add: upd_conv_take_nth_drop)
    then show ?thesis using True t by simp
  next
    case False
    then have lt: "Suc p < length b" by simp
    have "rotate (Suc p) (b[p := v]) = drop (Suc p) (b[p := v]) @ take (Suc p) (b[p := v])"
      using lt by (simp add: rotate_drop_take)
    also have "\<dots> = drop (Suc p) b @ take p b @ [v]"
      using assms by (simp add: take_Suc_conv_app_nth)
    finally show ?thesis using False t by simp
  qed
qed

lemma store_op_step:
  assumes "er_inv s"
  shows "\<exists>s'. store_op x s = Inr s' \<and> er_inv s' \<and> capacity s' = capacity s
          \<and> batch_size s' = batch_size s
          \<and> rb_size s' = min (Suc (rb_size s)) (capacity s)
          \<and> data_pointer s' = Suc (data_pointer s) mod capacity s
          \<and> rotate (data_pointer s') (buffer s') = tl (rotate (data_pointer s) (buffer s)) @ [Some x]"
proof -
  have p: "data_pointer s < length (buffer s)" using assms by (simp add: er_inv_def)
  have m: "Suc (data_pointer s) mod capacity s = (if Suc (data_pointer s) \<ge> length (buffer s) then 0 else Suc (data_pointer s))"
  proof (cases "Suc (data_pointer s) \<ge> length (buffer s)")
    case True
    then have "Suc (data_pointer s) = capacity s" using assms by (simp add: er_inv_def)
    then show ?thesis using True by simp
  next
    case False
    then show ?thesis using assms by (simp add: er_inv_def)
  qed
  show ?thesis
    using assms p rotate_store[OF p, of "Some x"] unfolding m
    by (auto simp: store_op_def update_rb_after_add_def er_inv_def Let_def min_def)
qed


lemma store_ops_snoc:
  "store_ops (xs @ [x]) s = (case store_ops xs s of Inl e \<Rightarrow> Inl e | Inr s' \<Rightarrow> store_op x s')"
  by (induction xs arbitrary: s) (auto split: sum.splits)

lemma ExperienceReplay_init_inv:
  assumes "0 < c" "0 \<le> b"
  shows "\<exists>s. ExperienceReplay_init b c = Inr s \<and> er_inv s \<and> capacity s = nat c \<and> rb_size s = 0
     \<and> data_pointer s = 0 \<and> buffer s = replicate (nat c) None \<and> batch_size s = nat b"
  using assms by (simp add: ExperienceReplay_init_def ReplayBuffer_init_def er_inv_def)

lemma store_ops_fresh:
  assumes "er_inv s0" "rb_size s0 = 0" "data_pointer s0 = 0" "buffer s0 = replicate (capacity s0) None"
  shows "\<exists>s. store_ops xs s0 = Inr s \<and> er_inv s \<and> capacity s = capacity s0
           \<and> batch_size s = batch_size s0
           \<and> rb_size s = min (length xs) (capacity s0)
           \<and> data_pointer s = length xs mod capacity s0
           \<and> rotate (data_pointer s) (buffer s) =
               replicate (capacity s0 - length xs) None @ map Some (drop (length xs - capacity s0) xs)"
proof (induction xs rule: rev_induct)
  case Nil
  then show ?case using assms by simp
next
  case (snoc x xs)
  then obtain s where s: "store_ops xs s0 = Inr s" "er_inv s" "capacity s = capacity s0"
      "batch_size s = batch_size s0"
      "rb_size s = min (length xs) (capacity s0)" "data_pointer s = length xs mod capacity s0"
      "rotate (data_pointer s) (buffer s) =
         replicate (capacity s0 - length xs) None @ map Some (drop (length xs - capacity s0) xs)"
    by blast
  from store_op_step[OF s(2), of x] obtain s' where s': "store_op x s = Inr s'" "er_inv s'"
      "capacity s' = capacity s" "batch_size s' = batch_size s"
      "rb_size s' = min (Suc (rb_size s)) (capacity s)"
      "data_pointer s' = Suc (data_pointer s) mod capacity s"
      "rotate (data_pointer s') (buffer s') = tl (rotate (data_pointer s) (buffer s)) @ [Some x]"
    by blast
  have r: "tl (replicate (capacity s0 - length xs) None @ map Some (drop (length xs - capacity s0) xs)) @ [Some x]
      = replicate (capacity s0 - length (xs @ [x])) None @ map Some (drop (length (xs @ [x]) - capacity s0) (xs @ [x]))"
  proof (cases "length xs < capacity s0")
    case True
    then obtain k where k: "capacity s0 - length xs = Suc k" by (metis Suc_diff_Suc zero_less_diff diff_zero)
    then have "capacity s0 - length (xs @ [x]) = k" by simp
    then show ?thesis using True k by simp
  next
    case False
    then have "capacity s0 - length xs = 0" "capacity s0 - length (xs @ [x]) = 0" by simp_all
    moreover have "length (xs @ [x]) - capacity s0 = Suc (length xs - capacity s0)" using False by simp
    moreover have "Suc 0 - capacity s0 = 0" using assms(1) by (simp add: er_inv_def)
    ultimately show ?thesis by (simp add: drop_Suc tl_drop map_tl[symmetric] drop_map del: map_tl)
  qed
  have "store_ops (xs @ [x]) s0 = Inr s'" using s(1) s'(1) by (simp add: store_ops_snoc)
  moreover have "rb_size s' = min (length (xs @ [x])) (capacity s0)" using s s' by (simp add: min_def)
  moreover have "data_pointer s' = length (xs @ [x]) mod capacity s0" using s s' by (simp add: mod_Suc_eq)
  ultimately show ?case using s s' r by simp
qed


lemma mset_rotate: "mset (rotate n xs) = mset xs"
proof -
  have "mset (drop k xs @ take k xs) = mset (take k xs @ drop k xs)" for k
    by (simp only: mset_append add.commute)
  then show ?thesis by (simp add: rotate_drop_take del: mset_append)
qed

lemma unpack_rows_Some: "unpack_rows (map Some ys) = Inr ys"
  by (induction ys) simp_all

lemma fresh_live_slots:
  assumes "er_inv s" "rb_size s = min n (capacity s)" "data_pointer s = n mod capacity s"
    "rotate (data_pointer s) (buffer s) = replicate (capacity s - n) None @ map Some ys"
    "length ys = min n (capacity s)"
  shows "\<exists>rows. live_slots s = map Some rows \<and> rotate (data_pointer s) rows = ys"
proof (cases "n < capacity s")
  case True
  then have p: "data_pointer s = n" "rb_size s = n" using assms by simp_all
  have len: "length (buffer s) = capacity s" using assms(1) by (simp add: er_inv_def)
  have "rotate n (buffer s) = drop n (buffer s) @ take n (buffer s)"
    using True len by (simp add: rotate_drop_take)
  then have "drop n (buffer s) @ take n (buffer s) = replicate (capacity s - n) None @ map Some ys"
    using assms(4) p by simp
  moreover have "length (drop n (buffer s)) = length (replicate (capacity s - n) (None :: 'a option))"
    using len by simp
  ultimately have "take n (buffer s) = map Some ys" by (meson append_eq_append_conv)
  moreover have "length ys = n" using assms(5) True by simp
  ultimately show ?thesis using p by (auto simp: live_slots_def)
next
  case False
  then have full: "rb_size s = capacity s" "capacity s - n = 0" using assms by simp_all
  have len: "length (buffer s) = capacity s" using assms(1) by (simp add: er_inv_def)
  have r: "rotate (data_pointer s) (buffer s) = map Some ys" using assms(4) full by simp
  have "set (buffer s) = set (map Some ys)" using r by (metis set_rotate)
  then have "\<forall>x \<in> set (buffer s). x \<noteq> None" by auto
  then have b: "buffer s = map Some (map the (buffer s))"
    by (induction "buffer s") (auto simp: map_idI)
  have "map Some (rotate (data_pointer s) (map the (buffer s))) = map Some ys"
    using r b by (metis rotate_map)
  then have "rotate (data_pointer s) (map the (buffer s)) = ys"
    by (simp add: inj_map_eq_map)
  moreover have "live_slots s = map Some (map the (buffer s))"
    using b full len by (simp add: live_slots_def)
  ultimately show ?thesis by blast
qed

lemma inserted_state:
  assumes "0 < c" "0 \<le> b"
  shows "\<exists>s0 s rows. ExperienceReplay_init b c = Inr s0 \<and> store_ops xs s0 = Inr s
           \<and> er_inv s \<and> capacity s = nat c
           \<and> rb_size s = min (length xs) (nat c)
           \<and> data_pointer s = length xs mod nat c
           \<and> rotate (data_pointer s) (buffer s) =
               replicate (nat c - length xs) None @ map Some (drop (length xs - nat c) xs)
           \<and> live_slots s = map Some rows
           \<and> rotate (data_pointer s) rows = drop (length xs - nat c) xs"
proof -
  from ExperienceReplay_init_inv[OF assms] obtain s0 :: "'a ExperienceReplay" where
    s0: "ExperienceReplay_init b c = Inr s0" "er_inv s0" "capacity s0 = nat c" "rb_size s0 = 0"
      "data_pointer s0 = 0" "buffer s0 = replicate (nat c) None" by blast
  from store_ops_fresh[of s0 xs] s0 obtain s where
    s: "store_ops xs s0 = Inr s" "er_inv s" "capacity s = nat c" "rb_size s = min (length xs) (nat c)"
       "data_pointer s = length xs mod nat c"
       "rotate (data_pointer s) (buffer s) =
               replicate (nat c - length xs) None @ map Some (drop (length xs - nat c) xs)"
    by auto
  have "length (drop (length xs - nat c) xs) = min (length xs) (capacity s)"
    using s(3) by (simp add: min_def)
  from fresh_live_slots[OF s(2), of "length xs" "drop (length xs - nat c) xs"] s this
  obtain rows where "live_slots s = map Some rows"
     "rotate (data_pointer s) rows = drop (length xs - nat c) xs" by auto
  then show ?thesis using s0 s by blast
qed

text \<open>
  C7. In an \<^verbatim>\<open>ExperienceReplay\<close> of capacity \<open>c > 0\<close>, after the single-item
  insertions \<open>xs\<close> (each one a \<^verbatim>\<open>_store_op\<close>) none raises, the size is
  \<open>min (length xs) c\<close>, the cursor is below \<open>c\<close>, and the live slots hold exactly
  the last \<open>c\<close> inserted items. Once \<open>c\<close> or more items were inserted, the slots
  read cyclically from the cursor are these items from the oldest to the newest, so
  the slot under the cursor, which the next insertion overwrites, holds the oldest
  one. The statement holds for every \<open>xs\<close>, hence after every insertion.
\<close>

theorem fifo_eviction:
  assumes "0 < c" and "0 \<le> b"
  shows "\<exists>s0 s. ExperienceReplay_init b c = Inr s0 \<and> store_ops xs s0 = Inr s
           \<and> rb_size s = min (length xs) (nat c)
           \<and> data_pointer s < nat c
           \<and> mset (live_slots s) = mset (map Some (drop (length xs - nat c) xs))
           \<and> (nat c \<le> length xs \<longrightarrow>
                rotate (data_pointer s) (buffer s) = map Some (drop (length xs - nat c) xs)
                \<and> buffer s ! data_pointer s = Some (xs ! (length xs - nat c)))"
proof -
  from inserted_state[OF assms, of xs] obtain s0 s rows where
    h: "ExperienceReplay_init b c = Inr s0" "store_ops xs s0 = Inr s" "er_inv s" "capacity s = nat c"
       "rb_size s = min (length xs) (nat c)" "data_pointer s = length xs mod nat c"
       "rotate (data_pointer s) (buffer s) =
               replicate (nat c - length xs) None @ map Some (drop (length xs - nat c) xs)"
       "live_slots s = map Some rows" "rotate (data_pointer s) rows = drop (length xs - nat c) xs"
    by blast
  have p: "data_pointer s < nat c" using h(3,4) by (simp add: er_inv_def)
  have "mset rows = mset (drop (length xs - nat c) xs)" using h(9) by (metis mset_rotate)
  then have m: "mset (live_slots s) = mset (map Some (drop (length xs - nat c) xs))"
    using h(8) by simp
  have full: "rotate (data_pointer s) (buffer s) = map Some (drop (length xs - nat c) xs)
     \<and> buffer s ! data_pointer s = Some (xs ! (length xs - nat c))" if ge: "nat c \<le> length xs"
  proof -
    have r: "rotate (data_pointer s) (buffer s) = map Some (drop (length xs - nat c) xs)"
      using h(7) ge by simp
    have len: "length (buffer s) = nat c" using h(3,4) by (simp add: er_inv_def)
    have "0 < length (buffer s)" using len assms by simp
    then have "rotate (data_pointer s) (buffer s) ! 0 = buffer s ! ((0 + data_pointer s) mod length (buffer s))"
      by (simp add: nth_rotate)
    then have "buffer s ! data_pointer s = map Some (drop (length xs - nat c) xs) ! 0"
      using r p len by simp
    moreover have "0 < length (drop (length xs - nat c) xs)" using ge assms by simp
    ultimately have "buffer s ! data_pointer s = Some (xs ! (length xs - nat c))"
      by (simp add: nth_map)
    then show ?thesis using r by simp
  qed
  show ?thesis using h(1,2,5) p m full by blast
qed

theorem fifo_eviction_witness:
  "\<exists>s0 s. ExperienceReplay_init 1 2 = Inr s0 \<and> store_ops [10, 20, 30 :: nat] s0 = Inr s
     \<and> rb_size s = 2 \<and> data_pointer s < 2
     \<and> mset (live_slots s) = {#Some 20, Some 30#}
     \<and> rotate (data_pointer s) (buffer s) = [Some 20, Some 30]
     \<and> buffer s ! data_pointer s = Some 20"
  using fifo_eviction[of 2 1 "[10, 20, 30 :: nat]"] by (simp add: numeral_3_eq_3 numeral_2_eq_2)

text \<open>
  C4, as the code has it. \<^verbatim>\<open>get_all\<close> reads the slots \<open>0, 1, ...\<close> up to the size
  and not from the cursor: after the insertions \<open>xs\<close> into a fresh buffer of capacity
  \<open>c > 0\<close> its columns list the rows \<open>rows\<close> in slot order, and it is \<open>rows\<close>
  rotated by the cursor that is the insertion order of the last \<open>c\<close> items. The two
  orders agree when no more than \<open>c\<close> items were inserted or the cursor is back at 0.
\<close>

theorem get_all_slot_order:
  assumes "0 < c" and "0 \<le> b"
  shows "\<exists>s0 s rows. ExperienceReplay_init b c = Inr s0 \<and> store_ops xs s0 = Inr s
           \<and> get_all s = Inr (zip_star rows)
           \<and> rotate (data_pointer s) rows = drop (length xs - nat c) xs
           \<and> (length xs \<le> nat c \<or> data_pointer s = 0 \<longrightarrow> rows = drop (length xs - nat c) xs)"
proof -
  from inserted_state[OF assms, of xs] obtain s0 s rows where
    h: "ExperienceReplay_init b c = Inr s0" "store_ops xs s0 = Inr s" "er_inv s" "capacity s = nat c"
       "rb_size s = min (length xs) (nat c)" "data_pointer s = length xs mod nat c"
       "live_slots s = map Some rows" "rotate (data_pointer s) rows = drop (length xs - nat c) xs"
    by blast
  have g: "get_all s = Inr (zip_star rows)" using h(7) by (simp add: get_all_def unpack_rows_Some)
  have "rows = drop (length xs - nat c) xs" if "length xs \<le> nat c \<or> data_pointer s = 0"
  proof (cases "data_pointer s = 0")
    case True
    then show ?thesis using h(8) by simp
  next
    case False
    then have le: "length xs \<le> nat c" using that by simp
    then have "length xs < nat c" using False h(6) by (cases "length xs = nat c") auto
    then have "data_pointer s = length xs" using h(6) by simp
    moreover have "length rows = length xs"
      using h(8) le by (metis length_rotate length_drop diff_is_0_eq diff_zero)
    ultimately have "rotate (length rows) rows = drop (length xs - nat c) xs" using h(8) by simp
    then show ?thesis by simp
  qed
  then have "length xs \<le> nat c \<or> data_pointer s = 0 \<longrightarrow> rows = drop (length xs - nat c) xs"
    by simp
  with h(1,2,8) g show ?thesis
    by (intro exI[of _ s0] exI[of _ s] exI[of _ rows]) simp
qed


theorem get_all_slot_order_witness:
  "and_then (and_then (ExperienceReplay_init 1 2) (store_ops [[1::nat], [2]])) get_all = Inr [[1, 2]]"
proof -
  from get_all_slot_order[of 2 1 "[[1::nat], [2]]"] obtain s0 s rows where
    "ExperienceReplay_init 1 2 = Inr s0" "store_ops [[1::nat], [2]] s0 = Inr s"
    "get_all s = Inr (zip_star rows)" "rows = [[1], [2]]"
    by auto
  then show ?thesis by (simp add: and_then_def zip_star_def)
qed

text \<open>
  With capacity 2 and the rows \<open>[1]\<close>, \<open>[2]\<close>, \<open>[3]\<close> inserted in this order, the
  cursor has wrapped: \<^verbatim>\<open>get_all\<close> returns the column \<open>[3, 2]\<close>, while the insertion
  order of the live rows is \<open>[2]\<close>, \<open>[3]\<close>, whose column is \<open>[2, 3]\<close>.
\<close>

theorem get_all_insertion_order_counterexample:
  "and_then (and_then (ExperienceReplay_init 1 2) (store_ops [[1::nat], [2], [3]])) get_all = Inr [[3, 2]]
   \<and> zip_star [[2::nat], [3]] = [[2, 3]]"
  by (simp add: and_then_def ExperienceReplay_init_def ReplayBuffer_init_def store_op_def
      update_rb_after_add_def get_all_def live_slots_def zip_star_def numeral_2_eq_2)

text \<open>
  C10. \<^verbatim>\<open>reset\<close> sets the size to 0 and changes nothing else: the cursor and the
  slots stay. So in a buffer of capacity 3 and batch size 1, after adding the rows
  \<open>[1]\<close> and \<open>[2]\<close> (cursor 2), a reset and the addition of the row \<open>[3]\<close>, the new
  row is in slot 2 and the size is 1: \<^verbatim>\<open>get_all\<close> and every possible \<^verbatim>\<open>sample\<close>
  read slot 0 and return the row \<open>[1]\<close> added before the reset, not the row \<open>[3]\<close>.
\<close>

theorem reset_keeps_cursor_and_slots:
  "reset s = s\<lparr>rb_size := 0\<rparr> \<and> data_pointer (reset s) = data_pointer s
   \<and> buffer (reset s) = buffer s
   \<and> and_then (ExperienceReplay_init 1 3) (add [[1::nat, 2]]) =
        Inr \<lparr>batch_size = 1, capacity = 3, rb_size = 2, data_pointer = 2,
             buffer = [Some [1], Some [2], None]\<rparr>
   \<and> and_then (and_then (ExperienceReplay_init 1 3) (add [[1::nat, 2]])) (\<lambda>s1. add [[3]] (reset s1)) =
        Inr \<lparr>batch_size = 1, capacity = 3, rb_size = 1, data_pointer = 0,
             buffer = [Some [1], Some [2], Some [3]]\<rparr>
   \<and> get_all \<lparr>batch_size = 1, capacity = 3, rb_size = 1, data_pointer = 0,
              buffer = [Some [1], Some [2], Some [3::nat]]\<rparr> = Inr [[1]]
   \<and> sample_draw \<lparr>batch_size = 1, capacity = 3, rb_size = 1, data_pointer = 0,
              buffer = [Some [1], Some [2], Some [3::nat]]\<rparr> picks = (picks = [0])
   \<and> sample \<lparr>batch_size = 1, capacity = 3, rb_size = 1, data_pointer = 0,
              buffer = [Some [1], Some [2], Some [3::nat]]\<rparr> [0] = Inr [[1]]"
proof -
  have d: "(length picks = Suc 0 \<and> distinct picks \<and> list_all (\<lambda>i. i = 0) picks) = (picks = [0])"
    by (cases picks) auto
  show ?thesis
    by (simp add: reset_def and_then_def ExperienceReplay_init_def ReplayBuffer_init_def
        store_op_def add_def update_rb_after_add_def get_all_def sample_def sample_draw_def
        n_sample_def is_lg_batch_size_def live_slots_def zip_star_def numeral_2_eq_2
        numeral_3_eq_3 d)
qed


section \<open>The n-step accumulator\<close>

lemma flush_rev: "flush q committed = ([], committed @ rev q)"
proof (induction q committed rule: flush.induct)
  case (1 q committed)
  show ?case
  proof (cases "q = []")
    case True
    then show ?thesis by (simp add: flush.simps[of "[]"])
  next
    case False
    then obtain ys y where q: "q = ys @ [y]" by (meson rev_exhaust)
    have "flush q committed = flush (butlast q) (committed @ [last q])"
      using False by (simp add: flush.simps[of q])
    also have "\<dots> = ([], (committed @ [last q]) @ rev (butlast q))"
      using 1 False by simp
    finally show ?thesis using q by simp
  qed
qed


text \<open>
  C1. What the code does when a row discontinuous with a queue of exactly \<open>n\<close>
  entries arrives: \<^verbatim>\<open>_per_store\<close> commits the oldest entry and appends the new row
  without clearing, so the other \<open>n - 1\<close> entries from before the discontinuity stay
  queued in front of the new row.
\<close>

theorem per_store_discontinuity_full_queue:
  assumes "q \<noteq> []" and "int (length q) = k"
    and "next_state (last q) \<noteq> state data \<or> next_visual_state (last q) \<noteq> visual_state data"
  shows "per_store_queue k g data (q, committed) = (tl q @ [data], committed @ [hd q])"
  using assms by (auto simp: per_store_queue_def)

text \<open>
  A queue of \<open>n = 2\<close> entries receives a row whose state 7 is not the tail's next
  state 2: the second entry is still queued afterwards.
\<close>

theorem per_store_discontinuity_full_queue_witness:
  "per_store_queue 2 (9/10) (step_row (7::nat) 8 False)
      ([(step_row 0 2 False)\<lparr>reward := 19/10\<rparr>, step_row 1 2 False], [])
   = ([step_row 1 2 False, step_row 7 8 False], [(step_row 0 2 False)\<lparr>reward := 19/10\<rparr>])"
  using per_store_discontinuity_full_queue[of
      "[(step_row 0 2 False)\<lparr>reward := 19/10\<rparr>, step_row 1 2 False]" 2
      "step_row (7::nat) 8 False" "9/10" "[]"]
  by (simp add: step_row_def)

text \<open>
  C2, as the code has it. When a row that continues a non-empty queue has its done
  flag set, the queue (after the commit of the oldest entry if it was full, and the
  roll forward) and the new row are all committed and the queue is left empty; the
  order is that of \<^verbatim>\<open>q.pop()\<close>, from the newest to the oldest: the new row first,
  the entry that entered the queue earliest last.
\<close>

theorem done_flush_newest_first:
  assumes "q \<noteq> []" and "next_state (last q) = state data"
    and "next_visual_state (last q) = visual_state data" and "done_flag data"
  shows "per_store_queue k g data (q, committed) =
           ([], (if int (length q) = k then committed @ [hd q] else committed)
                @ data # rev (roll_forward g data (if int (length q) = k then tl q else q)))"
  using assms by (simp add: per_store_queue_def flush_rev)

theorem done_flush_newest_first_witness:
  "per_store_queue 2 (1/2) (step_row (2::nat) 3 True)
      ([step_row 0 1 False, step_row 1 2 False], [])
   = ([], [step_row 0 1 False, step_row 2 3 True, (step_row 1 3 True)\<lparr>reward := 3/2\<rparr>])"
  using done_flush_newest_first[of "[step_row 0 1 False, step_row 1 2 False]"
      "step_row (2::nat) 3 True" 2 "1/2" "[]"]
  by (simp add: roll_forward_def enumerate_eq_zip step_row_def)

text \<open>
  With \<open>n = 3\<close> and one queued row from state 0 to state 1, the done row from state 1
  to state 2 is committed before the older row; the order from the oldest to the
  newest would be the reverse.
\<close>

theorem done_flush_oldest_first_counterexample:
  "snd (per_store_queue 3 (9/10) (step_row (1::nat) 2 True) ([step_row 0 1 False], []))
     = [step_row 1 2 True, (step_row 0 2 True)\<lparr>reward := 19/10\<rparr>]
   \<and> snd (per_store_queue 3 (9/10) (step_row (1::nat) 2 True) ([step_row 0 1 False], []))
     \<noteq> [(step_row 0 2 True)\<lparr>reward := 19/10\<rparr>, step_row 1 2 True]"
  by (simp add: per_store_queue_def flush_rev roll_forward_def enumerate_eq_zip step_row_def)

text \<open>
  C3. One agent, \<open>gamma = 0.9\<close>, \<open>n = 3\<close>, five consecutive rows of reward 1 through
  the states \<open>x0, ..., x5\<close>, the fifth with the done flag. No call raises. The first
  row committed starts at \<open>x0\<close>, has reward \<open>2.71 = 1 + 0.9 + 0.81\<close> and next state
  \<open>x3\<close>; the second, committed when the fifth row arrives, starts at \<open>x1\<close> with
  reward 2.71 and next state \<open>x4\<close>. The terminal flush then commits the rows
  starting at \<open>x4\<close>, \<open>x3\<close> and \<open>x2\<close> with the rewards 1, 1.9 and 2.71, the discounted
  sums of the rewards observed from each of them on, next state \<open>x5\<close> and the done
  flag; the queue is left empty.
\<close>

theorem n_step_example:
  "NStep_adds [[step_row x0 x1 False], [step_row x1 x2 False], [step_row x2 x3 False],
               [step_row x3 x4 False], [step_row x4 x5 True]]
        (NStepWrapper_init (9/10) 3 1)
   = Inr \<lparr>ns_n = 3, ns_gamma = 9/10, ns_agents_num = 1, ns_queue = [[]],
          ns_committed =
            [(step_row x0 x3 False)\<lparr>reward := 271/100\<rparr>,
             (step_row x1 x4 False)\<lparr>reward := 271/100\<rparr>,
             step_row x4 x5 True,
             (step_row x3 x5 True)\<lparr>reward := 19/10\<rparr>,
             (step_row x2 x5 True)\<lparr>reward := 271/100\<rparr>]\<rparr>"
  by (simp add: NStep_add_def NStep_per_store_def NStepWrapper_init_def per_store_queue_def
      flush_rev roll_forward_def enumerate_eq_zip step_row_def power2_eq_square)



section \<open>The prioritized buffer\<close>

text \<open>
  C5, as the code has it. The constructor raises AssertionError whenever
  \<open>epsilon \<le> 0\<close> or the capacity is negative. \<open>alpha\<close> is not checked: whether the
  constructor raises does not depend on it.
\<close>

theorem PER_init_fails:
  "(eps \<le> 0 \<or> c < 0 \<longrightarrow>
      (PER_init b c m al be eps gv :: py_error + 'a PrioritizedExperienceReplay) = Inl AssertionError)
   \<and> isl (PER_init b c m al' be eps gv :: py_error + 'a PrioritizedExperienceReplay)
       = isl (PER_init b c m al be eps gv :: py_error + 'a PrioritizedExperienceReplay)"
  by (auto simp: PER_init_def ReplayBuffer_init_def split: sum.splits)

theorem PER_init_fails_witness:
  "(PER_init 32 (-1) 1000 (1/2) (2/5) (1/100) False :: py_error + unit PrioritizedExperienceReplay)
     = Inl AssertionError
   \<and> (PER_init 32 100 1000 (1/2) (2/5) 0 False :: py_error + unit PrioritizedExperienceReplay)
     = Inl AssertionError"
  using PER_init_fails[where ?'a = unit and eps = "1/100" and c = "-1" and b = 32 and m = 1000
      and al = "1/2" and be = "2/5" and gv = False and al' = "1/2"]
    PER_init_fails[where ?'a = unit and eps = 0 and c = 100 and b = 32 and m = 1000
      and al = "1/2" and be = "2/5" and gv = False and al' = "1/2"]
  by simp

text \<open>
  With \<open>alpha = 2\<close>, outside \<open>[0, 1]\<close>, and valid other arguments the constructor
  returns a buffer.
\<close>

theorem PER_init_alpha_counterexample:
  "\<not> isl (PER_init 32 100 1000 2 (2/5) (1/100) False :: py_error + unit PrioritizedExperienceReplay)
   \<and> \<not> (0 \<le> (2::real) \<and> (2::real) \<le> 1)"
  by (simp add: PER_init_def ReplayBuffer_init_def)
























section \<open>The episode buffer\<close>
























end
